theory Spec2Isabelle
  imports Main "HOL-Library.Word" "HOL-Library.Product_Lexorder"
begin

unbundle bit_operations_syntax

section \<open>Machine types\<close>

type_synonym u8 = "8 word"
type_synonym u16 = "16 word"
type_synonym u32 = "32 word"
type_synonym u64 = "64 word"

text \<open>A pointer is an address; \<open>None\<close> is \<open>NULL\<close>.\<close>

type_synonym ptr = "nat option"

text \<open>
  The ways a call ends without a result: a failed \<open>assert\<close>, \<open>DIE\<close>, an access
  that is undefined behaviour (an index past the end of a vector, a reference into an
  empty Tub, the last element of an empty list), and \<open>OutOfFuel\<close>, which is the
  model's own (see \<open>add\<close> below).
\<close>

datatype error = AssertionFailed | Died | InvalidAccess | OutOfFuel

section \<open>HomaTransport.h: RpcId\<close>

record RpcId =
  clientId :: u64
  sequence :: u64

definition RpcId_ctor :: "u64 \<Rightarrow> u64 \<Rightarrow> RpcId" where
  "RpcId_ctor c s = \<lparr>clientId = c, sequence = s\<rparr>"

text \<open>\<open>RpcId::operator<\<close>\<close>

definition RpcId_less :: "RpcId \<Rightarrow> RpcId \<Rightarrow> bool" where
  "RpcId_less a other \<longleftrightarrow>
     (clientId a < clientId other)
     \<or> ((clientId a = clientId other) \<and> (sequence a < sequence other))"

text \<open>\<open>RpcId::operator==\<close>\<close>

definition RpcId_eq :: "RpcId \<Rightarrow> RpcId \<Rightarrow> bool" where
  "RpcId_eq a other \<longleftrightarrow>
     ((clientId a = clientId other) \<and> (sequence a = sequence other))"

section \<open>HomaTransport.h: packet headers\<close>

datatype PacketOpcode =
  ALL_DATA | DATA | GRANT | LOG_TIME_TRACE | RESEND | BUSY | ABORT | BOGUS

text \<open>The numeric values of the enum.\<close>

fun opcodeValue :: "PacketOpcode \<Rightarrow> u8" where
  "opcodeValue ALL_DATA = 20"
| "opcodeValue DATA = 21"
| "opcodeValue GRANT = 22"
| "opcodeValue LOG_TIME_TRACE = 23"
| "opcodeValue RESEND = 24"
| "opcodeValue BUSY = 25"
| "opcodeValue ABORT = 26"
| "opcodeValue BOGUS = 27"

record CommonHeader =
  opcode :: u8
  rpcId :: RpcId
  flags :: u8

definition CommonHeader_ctor :: "PacketOpcode \<Rightarrow> RpcId \<Rightarrow> u8 \<Rightarrow> CommonHeader" where
  "CommonHeader_ctor oc r f = \<lparr>opcode = opcodeValue oc, rpcId = r, flags = f\<rparr>"

definition FROM_CLIENT :: u8 where "FROM_CLIENT = 1"
definition FROM_SERVER :: u8 where "FROM_SERVER = 0"
definition RETRANSMISSION :: u8 where "RETRANSMISSION = 2"
definition RESTART :: u8 where "RESTART = 4"

record DataHeader =
  common :: CommonHeader
  totalLength :: u32
  offset :: u32
  unscheduledBytes :: u32

definition DataHeader_ctor :: "RpcId \<Rightarrow> u32 \<Rightarrow> u32 \<Rightarrow> u32 \<Rightarrow> u8 \<Rightarrow> DataHeader" where
  "DataHeader_ctor r tot off unsched f =
     \<lparr>common = CommonHeader_ctor DATA r f, totalLength = tot, offset = off,
      unscheduledBytes = unsched\<rparr>"

record GrantHeader =
  common :: CommonHeader
  offset :: u32
  priority :: u8


text \<open>The field \<open>length\<close> of the source is \<open>length'\<close> here (\<open>length\<close> is the length of a list).\<close>

record ResendHeader =
  common :: CommonHeader
  offset :: u32
  length' :: u32
  priority :: u8


record AbortHeader =
  common :: CommonHeader

definition AbortHeader_ctor :: "RpcId \<Rightarrow> AbortHeader" where
  "AbortHeader_ctor r = \<lparr>common = CommonHeader_ctor ABORT r FROM_CLIENT\<rparr>"

section \<open>HomaTransport.h: MessageAccumulator and ScheduledMessage\<close>

text \<open>
  A \<open>Buffer\<close> is the sequence of its bytes; \<open>Buffer::size()\<close> returns a
  \<open>uint32_t\<close>.
\<close>

type_synonym Buffer = "u8 list"

definition Buffer_size :: "Buffer \<Rightarrow> u32" where
  "Buffer_size b = of_nat (List.length b)"

text \<open>
  The memory a \<open>DataHeader*\<close> handed over by the driver points to: the header of a
  DATA packet, followed by the message data of the packet.
\<close>

record DataPacket =
  hdr :: DataHeader
  payload :: "u8 list"

text \<open>
  \<open>MessageFragment\<close> and \<open>MessageAccumulator\<close>; the back pointer \<open>t\<close> to the
  transport is left out, and the \<open>Buffer*\<close> is the buffer it points to.
\<close>

record MessageFragment =
  header :: DataPacket
  length' :: u32

record MessageAccumulator =
  buffer :: Buffer
  fragments :: "u32 \<rightharpoonup> MessageFragment"
  totalLength :: u32

datatype State = NEW | ACTIVE | INACTIVE | FULLY_GRANTED

text \<open>
  The object behind \<open>accumulator\<close> (a \<open>const MessageAccumulator* const\<close>) is
  held by value; the intrusive list hooks are the membership in the lists of the
  transport.
\<close>

record ScheduledMessage =
  accumulator :: MessageAccumulator
  grantOffset :: u32
  grantPriority :: int
  rpcId :: RpcId
  senderAddress :: nat
  senderHash :: u64
  state :: State
  totalLength :: u32
  whoFrom :: u8

section \<open>HomaTransport.h: the transport, OutgoingMessage, ClientRpc, ServerRpc\<close>

text \<open>The fields of \<open>HomaTransport\<close> that the operations below read or write.\<close>

record HomaTransport =
  maxDataPerPacket :: u32
  clientId :: u64
  highestAvailPriority :: int
  lowestUnschedPrio :: int
  highestSchedPriority :: int
  roundTripBytes :: u32
  grantIncrement :: u32
  activeMessages :: "ScheduledMessage list"
  inactiveMessages :: "ScheduledMessage list"
  maxGrantedMessages :: u32

record OutgoingMessage =
  buffer :: Buffer
  clientRpc :: ptr
  serverRpc :: ptr
  recipient :: nat
  transmitOffset :: u32
  transmitPriority :: u8
  transmitLimit :: u32
  topChoice :: bool
  lastTransmitTime :: u64
  unscheduledBytes :: u32

text \<open>
  \<open>OutgoingMessage::OutgoingMessage\<close>. The initialiser \<open>transmitLimit()\<close>
  value-initialises the field, to zero.
\<close>

definition OutgoingMessage_ctor ::
  "ptr \<Rightarrow> ptr \<Rightarrow> HomaTransport \<Rightarrow> Buffer \<Rightarrow> nat \<Rightarrow> OutgoingMessage" where
  "OutgoingMessage_ctor cRpc sRpc t buf rcpt =
     \<lparr>buffer = buf, clientRpc = cRpc, serverRpc = sRpc, recipient = rcpt,
      transmitOffset = 0, transmitPriority = 0, transmitLimit = 0, topChoice = False,
      lastTransmitTime = 0, unscheduledBytes = roundTripBytes t\<rparr>"

text \<open>
  A pointer to the transport, a session or a message is the object it points to; an
  address or a notifier is a number. The intrusive list hooks, and the members that
  \<open>ServerRpc\<close> inherits, are left out.
\<close>

record Session =
  t :: HomaTransport
  serverAddress :: nat
  aborted :: bool

record ClientRpc =
  session :: Session
  request :: OutgoingMessage
  response :: Buffer
  notifier :: nat
  rpcId :: RpcId
  silentIntervals :: u32
  transmitPending :: bool
  accumulator :: "MessageAccumulator option"
  scheduledMessage :: "ScheduledMessage option"

text \<open>\<open>ClientRpc::ClientRpc\<close>; \<open>this\<close> is the address of the object.\<close>

definition ClientRpc_ctor ::
  "nat \<Rightarrow> Session \<Rightarrow> u64 \<Rightarrow> Buffer \<Rightarrow> Buffer \<Rightarrow> nat \<Rightarrow> ClientRpc" where
  "ClientRpc_ctor this sess sequ req resp notif =
     \<lparr>session = sess,
      request = OutgoingMessage_ctor (Some this) None (Session.t sess) req (serverAddress sess),
      response = resp, notifier = notif,
      rpcId = RpcId_ctor (HomaTransport.clientId (Session.t sess)) sequ,
      silentIntervals = 0, transmitPending = True, accumulator = None,
      scheduledMessage = None\<rparr>"

record ServerRpc =
  sequence :: u64
  cancelled :: bool
  rpcId :: RpcId
  silentIntervals :: u32
  requestComplete :: bool
  sendingResponse :: bool
  accumulator :: "MessageAccumulator option"
  response :: OutgoingMessage
  scheduledMessage :: "ScheduledMessage option"

text \<open>
  \<open>ServerRpc::ServerRpc\<close>; \<open>replyPayload\<close> is the buffer of the base class
  \<open>Transport::ServerRpc\<close> that \<open>&replyPayload\<close> points to.
\<close>

definition ServerRpc_ctor ::
  "nat \<Rightarrow> Buffer \<Rightarrow> HomaTransport \<Rightarrow> u64 \<Rightarrow> nat \<Rightarrow> RpcId \<Rightarrow> ServerRpc" where
  "ServerRpc_ctor this replyPayload transport sequ clientAddress r =
     \<lparr>sequence = sequ, cancelled = False, rpcId = r, silentIntervals = 0,
      requestComplete = False, sendingResponse = False, accumulator = None,
      response = OutgoingMessage_ctor None (Some this) transport replyPayload clientAddress,
      scheduledMessage = None\<rparr>"

section \<open>The sender: transmit offset and transmit limit\<close>

text \<open>The total length of an outgoing message: the size of its buffer.\<close>

definition messageLength :: "OutgoingMessage \<Rightarrow> u32" where
  "messageLength m = Buffer_size (OutgoingMessage.buffer m)"

text \<open>
  Modelled from the spec: the send path of HomaTransport.cc (\<open>Session::sendRequest\<close>,
  \<open>ServerRpc::sendReply\<close>) is not among the sources. "transmitLimit starts at
  min(unscheduledBytes, totalLength)".
\<close>

definition beginTransmission :: "OutgoingMessage \<Rightarrow> OutgoingMessage" where
  "beginTransmission m =
     m\<lparr>transmitLimit := min (OutgoingMessage.unscheduledBytes m) (messageLength m)\<rparr>"

text \<open>
  Modelled from the spec: \<open>tryToTransmitData\<close> is declared in the header only. One
  step of the transmit engine on a message (4.3): a message with
  transmitOffset < transmitLimit emits a single packet, ALL_DATA if totalLength is at
  most maxDataPerPacket, else DATA, and transmitOffset advances. An ALL_DATA packet
  carries the whole message, "sent atomically", and takes transmitLimit along; a DATA
  packet carries at most maxDataPerPacket bytes of the buffer, none of them at or after
  transmitLimit. The result is the message and the packet emitted, if any.
\<close>

definition transmitPacket ::
  "HomaTransport \<Rightarrow> OutgoingMessage \<Rightarrow> OutgoingMessage \<times> (PacketOpcode \<times> u8 list) option" where
  "transmitPacket tr m =
     (if transmitOffset m < transmitLimit m then
        if messageLength m \<le> maxDataPerPacket tr then
          (m\<lparr>transmitOffset := messageLength m, transmitLimit := messageLength m\<rparr>,
           Some (ALL_DATA, OutgoingMessage.buffer m))
        else
          (let bytes = take (unat (min (maxDataPerPacket tr)
                                      (transmitLimit m - transmitOffset m)))
                         (drop (unat (transmitOffset m)) (OutgoingMessage.buffer m))
           in (m\<lparr>transmitOffset := transmitOffset m + of_nat (List.length bytes)\<rparr>,
               Some (DATA, bytes)))
      else (m, None))"

text \<open>
  Modelled from the spec: the packet handler of HomaTransport.cc is not among the
  sources. A GRANT advances transmitLimit to its offset, and transmitPriority follows
  the priority of the GRANT; a "GRANT with offset \<le> current transmitLimit is a no-op".
\<close>

definition handleGrant :: "OutgoingMessage \<Rightarrow> GrantHeader \<Rightarrow> OutgoingMessage" where
  "handleGrant m g =
     (if GrantHeader.offset g \<le> transmitLimit m then m
      else m\<lparr>transmitLimit := GrantHeader.offset g,
             transmitPriority := GrantHeader.priority g\<rparr>)"

text \<open>
  Modelled from the spec: the DATA packets that carry the bytes \<open>bytes\<close> of a message
  from the offset \<open>off\<close> on, at most \<open>M\<close> bytes each (maxDataPerPacket is the
  "maximum # bytes of message data that can fit in one packet"); \<open>mk\<close> builds the
  header of the packet at an offset.
\<close>

function cutPackets :: "nat \<Rightarrow> (u32 \<Rightarrow> DataHeader) \<Rightarrow> u32 \<Rightarrow> u8 list \<Rightarrow> DataPacket list" where
  "cutPackets M mk off bytes =
     (if M = 0 \<or> bytes = [] then []
      else \<lparr>hdr = mk off, payload = take M bytes\<rparr>
           # cutPackets M mk (off + of_nat (List.length (take M bytes))) (drop M bytes))"
  by pat_completeness auto

termination
  by (relation "measure (\<lambda>(M, mk, off, bytes). List.length bytes)") auto

declare cutPackets.simps [simp del]

text \<open>
  Modelled from the spec: the packet handler of HomaTransport.cc is not among the
  sources. Spec 4.6: "On receipt of RESEND with RESTART: the sender resets
  transmitOffset to 0, transmitLimit to unscheduledBytes, and resends from scratch": it
  "simply starts sending unscheduled bytes as normal" (the comment of the priority of a
  RESEND in the header), so transmitLimit is what a message starts with, the unscheduled
  bytes or the whole message if that is less (transmitLimit "must be always smaller than
  or equal to the message size", the comment of the field). "On receipt of RESEND
  without RESTART: the sender emits DATA with RETRANSMISSION flag for the requested
  window at the indicated priority", with "no RPC state change" (8); the window "could
  specify a range longer than the total message size" (the comment of the length of a
  RESEND), and a packet with the flag "has already been sent previously" (the comment of
  RETRANSMISSION), so the bytes of the window below transmitOffset are sent. The result
  is the message and the packets emitted, each with its priority.
\<close>

definition handleResend ::
  "HomaTransport \<Rightarrow> OutgoingMessage \<Rightarrow> ResendHeader
     \<Rightarrow> OutgoingMessage \<times> (DataPacket \<times> u8) list" where
  "handleResend tr m h =
     (if flags (ResendHeader.common h) AND RESTART \<noteq> 0
      then (beginTransmission (m\<lparr>transmitOffset := 0\<rparr>), [])
      else
        (m,
         map (\<lambda>p. (p, ResendHeader.priority h))
           (cutPackets (unat (maxDataPerPacket tr))
              (\<lambda>off. DataHeader_ctor (CommonHeader.rpcId (ResendHeader.common h))
                        (messageLength m) off (OutgoingMessage.unscheduledBytes m)
                        ((if clientRpc m \<noteq> None then FROM_CLIENT else FROM_SERVER)
                         OR RETRANSMISSION))
              (ResendHeader.offset h)
              (take (unat (ResendHeader.length' h))
                 (drop (unat (ResendHeader.offset h))
                    (take (unat (transmitOffset m)) (OutgoingMessage.buffer m)))))))"

text \<open>
  Modelled from the spec: the operations on a message that is being sent, as above.
\<close>

datatype SenderEvent = Transmit | GrantArrives GrantHeader | ResendArrives ResendHeader

fun senderStep :: "HomaTransport \<Rightarrow> OutgoingMessage \<Rightarrow> SenderEvent \<Rightarrow> OutgoingMessage" where
  "senderStep tr m Transmit = fst (transmitPacket tr m)"
| "senderStep tr m (GrantArrives g) = handleGrant m g"
| "senderStep tr m (ResendArrives h) = fst (handleResend tr m h)"







section \<open>The receiver: the message accumulator\<close>

text \<open>
  Modelled from the spec: the constructor of MessageAccumulator is declared in the
  header only. A new accumulator has no fragments.
\<close>

definition MessageAccumulator_ctor :: "Buffer \<Rightarrow> u32 \<Rightarrow> MessageAccumulator" where
  "MessageAccumulator_ctor buf tot =
     \<lparr>MessageAccumulator.buffer = buf, fragments = Map.empty,
      MessageAccumulator.totalLength = tot\<rparr>"

text \<open>The message data a fragment describes.\<close>

definition fragmentData :: "MessageFragment \<Rightarrow> u8 list" where
  "fragmentData f = take (unat (MessageFragment.length' f)) (payload (header f))"

text \<open>
  Modelled from the spec: the loop of \<open>addPacket\<close> (4.2), "while fragments contains
  key == buffer.size(), pop and append".
\<close>

function appendFragments :: "MessageAccumulator \<Rightarrow> MessageAccumulator" where
  "appendFragments a =
     (case fragments a (Buffer_size (MessageAccumulator.buffer a)) of
        None \<Rightarrow> a
      | Some f \<Rightarrow>
          appendFragments
            (a\<lparr>MessageAccumulator.buffer := MessageAccumulator.buffer a @ fragmentData f,
               fragments := (fragments a)(Buffer_size (MessageAccumulator.buffer a) := None)\<rparr>))"
  by pat_completeness auto

termination
proof (relation "measure (\<lambda>a. card (dom (fragments a)))")
  show "wf (measure (\<lambda>a. card (dom (fragments a))))" by simp
next
  fix a :: MessageAccumulator and f
  assume "fragments a (Buffer_size (MessageAccumulator.buffer a)) = Some f"
  then have "Buffer_size (MessageAccumulator.buffer a) \<in> dom (fragments a)" by auto
  then have "card (dom (fragments a) - {Buffer_size (MessageAccumulator.buffer a)})
               < card (dom (fragments a))"
    by (intro card_Diff1_less) simp_all
  then show "(a\<lparr>MessageAccumulator.buffer := MessageAccumulator.buffer a @ fragmentData f,
               fragments := (fragments a)(Buffer_size (MessageAccumulator.buffer a) := None)\<rparr>,
             a) \<in> measure (\<lambda>a. card (dom (fragments a)))"
    by simp
qed

declare appendFragments.simps [simp del]

text \<open>What becomes of the packet buffer handed to \<open>addPacket\<close>.\<close>

datatype Disposition = ReleasedToDriver | RetainedByTransport

text \<open>
  Modelled from the spec: \<open>MessageAccumulator::addPacket\<close> is declared in the header
  only. Spec 4.2: a packet below buffer.size() is a duplicate and is released to the
  driver; a packet at buffer.size() is appended (its buffer stolen from the driver) and
  the fragments that follow are appended after it; a packet above buffer.size() is
  dropped if its offset is a key of fragments already, and is inserted otherwise. The
  result is true iff the call advanced buffer.size(). \<open>len\<close> is the number of bytes of
  message data in the packet.
\<close>

definition addPacket ::
  "MessageAccumulator \<Rightarrow> DataPacket \<Rightarrow> u32 \<Rightarrow> bool \<times> Disposition \<times> MessageAccumulator" where
  "addPacket a pkt len =
     (let off = DataHeader.offset (hdr pkt)
      in if off < Buffer_size (MessageAccumulator.buffer a) then (False, ReleasedToDriver, a)
         else if off = Buffer_size (MessageAccumulator.buffer a) then
           (let a1 = appendFragments
                       (a\<lparr>MessageAccumulator.buffer := MessageAccumulator.buffer a @ take (unat len) (payload pkt)\<rparr>)
            in (Buffer_size (MessageAccumulator.buffer a)
                  < Buffer_size (MessageAccumulator.buffer a1),
                RetainedByTransport, a1))
         else (case fragments a off of
                 Some f \<Rightarrow> (False, ReleasedToDriver, a)
               | None \<Rightarrow>
                   (False, RetainedByTransport,
                    a\<lparr>fragments := (fragments a)(off \<mapsto> \<lparr>header = pkt, MessageFragment.length' = len\<rparr>)\<rparr>)))"

text \<open>The accumulators that the constructor and \<open>addPacket\<close> produce.\<close>

inductive reachableAccumulator :: "MessageAccumulator \<Rightarrow> bool" where
  created: "reachableAccumulator (MessageAccumulator_ctor buf tot)"
| added: "reachableAccumulator a \<Longrightarrow> reachableAccumulator (snd (snd (addPacket a pkt len)))"

text \<open>
  A packet that carries the piece of the message \<open>msg\<close> that starts at a multiple of
  the packet size \<open>M\<close>: the pieces a sender cuts a message into.
\<close>

definition chunkOf :: "u8 list \<Rightarrow> nat \<Rightarrow> DataPacket \<Rightarrow> u32 \<Rightarrow> bool" where
  "chunkOf msg M pkt len \<longleftrightarrow>
     M dvd unat (DataHeader.offset (hdr pkt))
     \<and> unat (DataHeader.offset (hdr pkt)) < List.length msg
     \<and> payload pkt = take M (drop (unat (DataHeader.offset (hdr pkt))) msg)
     \<and> unat len = List.length (payload pkt)"

text \<open>
  The invariant of the loop of \<open>addPacket\<close>: the buffer is a prefix of the message that
  ends at a packet boundary or at the end of the message, and every fragment is a piece of
  the message, stored under its offset, not below the end of the buffer.
\<close>

definition accumulatorLoopInvariant :: "u8 list \<Rightarrow> nat \<Rightarrow> MessageAccumulator \<Rightarrow> bool" where
  "accumulatorLoopInvariant msg M a \<longleftrightarrow>
     0 < M \<and> List.length msg < 2 ^ 32
     \<and> List.length (MessageAccumulator.buffer a) \<le> List.length msg
     \<and> MessageAccumulator.buffer a = take (List.length (MessageAccumulator.buffer a)) msg
     \<and> (M dvd List.length (MessageAccumulator.buffer a)
          \<or> List.length (MessageAccumulator.buffer a) = List.length msg)
     \<and> (\<forall>k f. fragments a k = Some f \<longrightarrow>
            Buffer_size (MessageAccumulator.buffer a) \<le> k
            \<and> DataHeader.offset (hdr (header f)) = k
            \<and> chunkOf msg M (header f) (MessageFragment.length' f))"

text \<open>The invariant between calls: moreover no fragment waits at the end of the buffer.\<close>

definition accumulatorInvariant :: "u8 list \<Rightarrow> nat \<Rightarrow> MessageAccumulator \<Rightarrow> bool" where
  "accumulatorInvariant msg M a \<longleftrightarrow>
     accumulatorLoopInvariant msg M a
     \<and> fragments a (Buffer_size (MessageAccumulator.buffer a)) = None"

text \<open>A message of twelve bytes, and the packets of four bytes it is cut into.\<close>

definition exampleMessage :: "u8 list" where
  "exampleMessage = [0, 1, 2, 3, 4, 5, 6, 7, 8, 9, 10, 11]"

definition examplePacket :: "u32 \<Rightarrow> u8 list \<Rightarrow> DataPacket" where
  "examplePacket off bytes =
     \<lparr>hdr = DataHeader_ctor (RpcId_ctor 1 1) 12 off 8 FROM_CLIENT, payload = bytes\<rparr>"

section \<open>The receiver: scheduling\<close>

text \<open>
  Modelled from the spec: the constructor of ScheduledMessage is declared in the header
  only. The state starts at NEW and grantOffset at the unscheduled bytes of the message
  (the comments of the two fields); \<open>hash\<close> is the hash of the sender's address.
\<close>

definition ScheduledMessage_ctor ::
  "RpcId \<Rightarrow> MessageAccumulator \<Rightarrow> u32 \<Rightarrow> nat \<Rightarrow> u64 \<Rightarrow> u32 \<Rightarrow> u8 \<Rightarrow> ScheduledMessage" where
  "ScheduledMessage_ctor r acc unsched addr hash tot who =
     \<lparr>ScheduledMessage.accumulator = acc, grantOffset = unsched, grantPriority = 0,
      ScheduledMessage.rpcId = r, senderAddress = addr, senderHash = hash, state = NEW,
      ScheduledMessage.totalLength = tot, whoFrom = who\<rparr>"

text \<open>
  Modelled from the spec: "bytesRemaining(m) = totalLength - accumulator.buffer.size()"
  (4.4).
\<close>

definition bytesRemaining :: "ScheduledMessage \<Rightarrow> u32" where
  "bytesRemaining m =
     ScheduledMessage.totalLength m
     - Buffer_size (MessageAccumulator.buffer (ScheduledMessage.accumulator m))"

text \<open>
  Modelled from the spec: \<open>ScheduledMessage::compareTo\<close> is declared in the header
  only. "compareTo orders primarily by smaller bytesRemaining, breaking ties by (rpcId)";
  a negative result means that \<open>m\<close> is better than \<open>other\<close>.
\<close>

definition compareTo :: "ScheduledMessage \<Rightarrow> ScheduledMessage \<Rightarrow> int" where
  "compareTo m other =
     (if bytesRemaining m < bytesRemaining other then - 1
      else if bytesRemaining other < bytesRemaining m then 1
      else if RpcId_less (ScheduledMessage.rpcId m) (ScheduledMessage.rpcId other) then - 1
      else if RpcId_less (ScheduledMessage.rpcId other) (ScheduledMessage.rpcId m) then 1
      else 0)"

text \<open>
  Modelled from the spec: insertion "into activeMessages in sorted position" (4.4), that
  is before the first message that is worse.
\<close>

fun insertSorted :: "ScheduledMessage \<Rightarrow> ScheduledMessage list \<Rightarrow> ScheduledMessage list" where
  "insertSorted m [] = [m]"
| "insertSorted m (x # xs) =
     (if compareTo m x < 0 then m # x # xs else x # insertSorted m xs)"

text \<open>
  Modelled from the spec: \<open>replaceActiveMessage\<close> is declared in the header only.
  \<open>oldMessage\<close> leaves activeMessages; \<open>newMessage\<close>, if there is one, leaves
  inactiveMessages and is inserted into activeMessages in sorted position.
\<close>

definition replaceActiveMessage ::
  "HomaTransport \<Rightarrow> ScheduledMessage \<Rightarrow> ScheduledMessage option \<Rightarrow> HomaTransport" where
  "replaceActiveMessage tr oldMessage newMessage =
     (case newMessage of
        None \<Rightarrow> tr\<lparr>activeMessages := remove1 oldMessage (activeMessages tr)\<rparr>
      | Some n \<Rightarrow>
          tr\<lparr>activeMessages :=
                insertSorted (n\<lparr>state := ACTIVE\<rparr>) (remove1 oldMessage (activeMessages tr)),
             inactiveMessages := remove1 n (inactiveMessages tr)\<rparr>)"

text \<open>
  Modelled from the spec: "The best inactive is chosen by compareTo" (4.4); the best
  message of a list.
\<close>

fun bestOf :: "ScheduledMessage list \<Rightarrow> ScheduledMessage option" where
  "bestOf [] = None"
| "bestOf (x # xs) =
     (case bestOf xs of
        None \<Rightarrow> Some x
      | Some y \<Rightarrow> if compareTo y x < 0 then Some y else Some x)"

text \<open>
  Modelled from the spec: "When m leaves active (FULLY_GRANTED or its owning RPC is
  destroyed), replaceActiveMessage(m, best-of-inactiveMessages with a senderHash not
  already active) is invoked" (4.4).
\<close>

definition leaveActive :: "HomaTransport \<Rightarrow> ScheduledMessage \<Rightarrow> HomaTransport" where
  "leaveActive tr m =
     replaceActiveMessage tr m
       (bestOf (filter (\<lambda>c. senderHash c \<notin> senderHash ` set (remove1 m (activeMessages tr)))
                  (inactiveMessages tr)))"

text \<open>
  Modelled from the spec: \<open>tryToSchedule\<close> is declared in the header only. Spec 4.4,
  step 1, for a message in state NEW: (a) an active message of the same sender that is
  better than \<open>m\<close> sends \<open>m\<close> to inactiveMessages, and one that is not is replaced by
  \<open>m\<close> (and waits in inactiveMessages); (b) else, with fewer than maxGrantedMessages
  active messages, \<open>m\<close> is inserted; (c) else \<open>m\<close> is compared with the tail of
  activeMessages and, if better, takes its place, the tail going to inactiveMessages;
  (d) else \<open>m\<close> goes to inactiveMessages. The tail of an empty list is an invalid access.
\<close>

definition tryToSchedule :: "HomaTransport \<Rightarrow> ScheduledMessage \<Rightarrow> error + HomaTransport" where
  "tryToSchedule tr m =
     (if state m \<noteq> NEW then Inr tr
      else case find (\<lambda>x. senderHash x = senderHash m) (activeMessages tr) of
        Some sibling \<Rightarrow>
          if compareTo sibling m < 0
          then Inr (tr\<lparr>inactiveMessages := inactiveMessages tr @ [m\<lparr>state := INACTIVE\<rparr>]\<rparr>)
          else
            (let t1 = replaceActiveMessage tr sibling (Some m)
             in Inr (t1\<lparr>inactiveMessages :=
                          inactiveMessages t1 @ [sibling\<lparr>state := INACTIVE\<rparr>]\<rparr>))
      | None \<Rightarrow>
          if List.length (activeMessages tr) < unat (maxGrantedMessages tr)
          then Inr (tr\<lparr>activeMessages :=
                         insertSorted (m\<lparr>state := ACTIVE\<rparr>) (activeMessages tr)\<rparr>)
          else if activeMessages tr = [] then Inl InvalidAccess
          else if compareTo m (last (activeMessages tr)) < 0
          then Inr (tr\<lparr>activeMessages :=
                         insertSorted (m\<lparr>state := ACTIVE\<rparr>) (butlast (activeMessages tr)),
                       inactiveMessages :=
                         inactiveMessages tr
                         @ [(last (activeMessages tr))\<lparr>state := INACTIVE\<rparr>]\<rparr>)
          else Inr (tr\<lparr>inactiveMessages := inactiveMessages tr @ [m\<lparr>state := INACTIVE\<rparr>]\<rparr>))"

text \<open>The bound of the claim: at most maxGrantedMessages messages are active.\<close>

definition activeBound :: "HomaTransport \<Rightarrow> bool" where
  "activeBound tr \<longleftrightarrow> List.length (activeMessages tr) \<le> unat (maxGrantedMessages tr)"

text \<open>
  A receiver that grants one message at a time, with a message of a million bytes
  active, and a new message of ten thousand bytes from another sender.
\<close>

definition bigMessage :: ScheduledMessage where
  "bigMessage =
     (ScheduledMessage_ctor (RpcId_ctor 1 1)
        \<lparr>MessageAccumulator.buffer = [], fragments = Map.empty,
         MessageAccumulator.totalLength = 1000000\<rparr> 8 7 70 1000000 FROM_CLIENT)
     \<lparr>state := ACTIVE\<rparr>"

definition smallMessage :: ScheduledMessage where
  "smallMessage =
     ScheduledMessage_ctor (RpcId_ctor 2 1)
       \<lparr>MessageAccumulator.buffer = [], fragments = Map.empty,
        MessageAccumulator.totalLength = 10000\<rparr> 8 9 90 10000 FROM_CLIENT"

definition busyTransport :: HomaTransport where
  "busyTransport =
     \<lparr>maxDataPerPacket = 4, HomaTransport.clientId = 1, highestAvailPriority = 7,
      lowestUnschedPrio = 4, highestSchedPriority = 3, roundTripBytes = 8,
      grantIncrement = 8, activeMessages = [bigMessage], inactiveMessages = [],
      maxGrantedMessages = 1\<rparr>"

section \<open>The receiver: grants\<close>



section \<open>ServerList.cc\<close>

text \<open>
  \<open>ServerId\<close>, \<open>ServerDetails\<close>, \<open>ServerStatus\<close>, \<open>ServiceMask\<close>, the protocol
  buffer \<open>ProtoBuf::ServerList\<close> and \<open>ServerTrackerInterface\<close> are declared outside
  ServerList.cc. They are modelled by the members ServerList.cc uses: a ServerId by its
  \<open>indexNumber()\<close> and \<open>generationNumber()\<close>, a service mask by its serialised word,
  a tracker by the changes enqueued to it and the number of callbacks fired.
\<close>

record ServerId =
  indexNumber :: u32
  generationNumber :: u32

definition ServerId_isValid :: "ServerId \<Rightarrow> bool" where
  "ServerId_isValid sid \<longleftrightarrow> generationNumber sid \<noteq> - 1"

datatype ServerStatus = UP | CRASHED | DOWN

datatype ServerChangeEvent = SERVER_ADDED | SERVER_CRASHED | SERVER_REMOVED

record ServerDetails =
  serverId :: ServerId
  serviceLocator :: string
  services :: u32
  expectedReadMBytesPerSec :: u32
  status :: ServerStatus

text \<open>The constructor \<open>ServerDetails(id, status)\<close>, the other members defaulted.\<close>

definition ServerDetails_ctor2 :: "ServerId \<Rightarrow> ServerStatus \<Rightarrow> ServerDetails" where
  "ServerDetails_ctor2 sid st =
     \<lparr>serverId = sid, serviceLocator = [], services = 0, expectedReadMBytesPerSec = 0,
      status = st\<rparr>"

record ServerTracker =
  changes :: "(ServerDetails \<times> ServerChangeEvent) list"
  callbacksFired :: nat

definition enqueueChange ::
  "ServerDetails \<Rightarrow> ServerChangeEvent \<Rightarrow> ServerTracker \<Rightarrow> ServerTracker" where
  "enqueueChange d ev tr = tr\<lparr>changes := changes tr @ [(d, ev)]\<rparr>"

definition fireCallback :: "ServerTracker \<Rightarrow> ServerTracker" where
  "fireCallback tr = tr\<lparr>callbacksFired := Suc (callbacksFired tr)\<rparr>"

datatype ServerList_Type = ServerList_Type_FULL_LIST | ServerList_Type_UPDATE

record ProtoBuf_Entry =
  server_id :: ServerId
  entry_status :: ServerStatus
  service_locator :: string
  entry_services :: u32
  expected_read_mbytes_per_sec :: u32

record ProtoBuf_ServerList =
  version_number :: u64
  list_type :: ServerList_Type
  server :: "ProtoBuf_Entry list"

text \<open>
  The state of a ServerList: the vector of \<open>Tub<ServerDetails>\<close>, and the members
  \<open>version\<close> and \<open>trackers\<close> of the base class.
\<close>

record ServerList =
  serverList :: "ServerDetails option list"
  version :: u64
  trackers :: "ServerTracker list"

text \<open>\<open>std::vector::resize\<close>: new slots hold empty Tubs.\<close>

definition resize :: "'a option list \<Rightarrow> nat \<Rightarrow> 'a option list" where
  "resize xs n = take n xs @ replicate (n - List.length xs) None"

text \<open>\<open>foreach (tracker, trackers) tracker->enqueueChange(d, ev)\<close>\<close>

definition notifyTrackers :: "ServerDetails \<Rightarrow> ServerChangeEvent \<Rightarrow> ServerList \<Rightarrow> ServerList" where
  "notifyTrackers d ev s = s\<lparr>trackers := map (enqueueChange d ev) (trackers s)\<rparr>"

text \<open>
  The end of \<open>ServerList::crashed\<close>, from the three assertions on: the entry exists, is
  for \<open>id\<close> and is up; it is marked crashed and the trackers are told.
\<close>

definition markCrashed :: "ServerList \<Rightarrow> nat \<Rightarrow> ServerId \<Rightarrow> error + (bool \<times> ServerList)" where
  "markCrashed s index sid =
     (if index \<ge> List.length (serverList s) then Inl InvalidAccess
      else case serverList s ! index of
        None \<Rightarrow> Inl AssertionFailed
      | Some entry \<Rightarrow>
          if serverId entry \<noteq> sid then Inl AssertionFailed
          else if status entry \<noteq> UP then Inl AssertionFailed
          else Inr (True,
            notifyTrackers (ServerDetails_ctor2 (serverId entry) CRASHED) SERVER_CRASHED
              (s\<lparr>serverList := (serverList s)[index := Some (entry\<lparr>status := CRASHED\<rparr>)]\<rparr>)))"

text \<open>
  The end of \<open>ServerList::add\<close>: \<open>assert(!entry)\<close>, the construction of the entry and
  the notifications.
\<close>

definition constructEntry ::
  "ServerList \<Rightarrow> nat \<Rightarrow> ServerId \<Rightarrow> string \<Rightarrow> u32 \<Rightarrow> u32 \<Rightarrow> error + (bool \<times> ServerList)" where
  "constructEntry s index sid locator svc mbytes =
     (if index \<ge> List.length (serverList s) then Inl InvalidAccess
      else case serverList s ! index of
        Some entry \<Rightarrow> Inl AssertionFailed
      | None \<Rightarrow>
          (let entry = \<lparr>serverId = sid, serviceLocator = locator, services = svc,
                        expectedReadMBytesPerSec = mbytes, status = UP\<rparr>
           in Inr (True, notifyTrackers entry SERVER_ADDED
                    (s\<lparr>serverList := (serverList s)[index := Some entry]\<rparr>))))"

text \<open>
  \<open>ServerList::add\<close>, \<open>ServerList::crashed\<close> and \<open>ServerList::remove\<close> call each
  other. The first argument bounds the depth of the calls: each call passes one less,
  and a call with none left is \<open>OutOfFuel\<close>.
\<close>

fun add :: "nat \<Rightarrow> ServerList \<Rightarrow> ServerId \<Rightarrow> string \<Rightarrow> u32 \<Rightarrow> u32 \<Rightarrow> error + (bool \<times> ServerList)"
and crashed :: "nat \<Rightarrow> ServerList \<Rightarrow> ServerId \<Rightarrow> string \<Rightarrow> u32 \<Rightarrow> u32 \<Rightarrow> error + (bool \<times> ServerList)"
and remove :: "nat \<Rightarrow> ServerList \<Rightarrow> ServerId \<Rightarrow> error + (bool \<times> ServerList)"
where
  "add 0 s sid locator svc mbytes = Inl OutOfFuel"
| "add (Suc n) s sid locator svc mbytes =
     (let index = unat (indexNumber sid);
          s1 = (if index \<ge> List.length (serverList s)
                then s\<lparr>serverList := resize (serverList s) (unat (indexNumber sid + 1))\<rparr>
                else s)
      in if index \<ge> List.length (serverList s1) then Inl InvalidAccess
         else case serverList s1 ! index of
           None \<Rightarrow> constructEntry s1 index sid locator svc mbytes
         | Some entry \<Rightarrow>
             if generationNumber sid < generationNumber (serverId entry) then Inr (False, s1)
             else if generationNumber sid > generationNumber (serverId entry) then
               (case remove n s1 (serverId entry) of
                  Inl e \<Rightarrow> Inl e
                | Inr (r, s2) \<Rightarrow> constructEntry s2 index sid locator svc mbytes)
             else Inr (False, s1))"
| "crashed 0 s sid locator svc mbytes = Inl OutOfFuel"
| "crashed (Suc n) s sid locator svc mbytes =
     (let index = unat (indexNumber sid)
      in case (if index \<ge> List.length (serverList s) \<or> serverList s ! index = None
               then add n s sid locator svc mbytes else Inr (True, s)) of
           Inl e \<Rightarrow> Inl e
         | Inr (r, s1) \<Rightarrow>
             if index \<ge> List.length (serverList s1) then Inl InvalidAccess
             else (case serverList s1 ! index of
               None \<Rightarrow> markCrashed s1 index sid
             | Some entry \<Rightarrow>
                 if generationNumber sid < generationNumber (serverId entry)
                 then Inr (False, s1)
                 else if generationNumber sid > generationNumber (serverId entry) then
                   (case remove n s1 (serverId entry) of
                      Inl e \<Rightarrow> Inl e
                    | Inr (r2, s2) \<Rightarrow>
                        (case add n s2 sid locator svc mbytes of
                           Inl e \<Rightarrow> Inl e
                         | Inr (r3, s3) \<Rightarrow> markCrashed s3 index sid))
                 else if status entry = CRASHED then Inr (False, s1)
                 else markCrashed s1 index sid))"
| "remove 0 s sid = Inl OutOfFuel"
| "remove (Suc n) s sid =
     (let index = unat (indexNumber sid)
      in if index \<ge> List.length (serverList s) then Inr (False, s)
         else case serverList s ! index of
           None \<Rightarrow> Inr (False, s)
         | Some entry \<Rightarrow>
             if generationNumber sid < generationNumber (serverId entry) then Inr (False, s)
             else
               (case (if status entry = UP
                      then crashed n s (serverId entry) (serviceLocator entry)
                             (services entry) (expectedReadMBytesPerSec entry)
                      else Inr (True, s)) of
                  Inl e \<Rightarrow> Inl e
                | Inr (r, s1) \<Rightarrow>
                    if index \<ge> List.length (serverList s1) then Inl InvalidAccess
                    else (case serverList s1 ! index of
                      None \<Rightarrow> Inl InvalidAccess
                    | Some entry1 \<Rightarrow>
                        Inr (True,
                          (notifyTrackers (ServerDetails_ctor2 (serverId entry1) DOWN)
                             SERVER_REMOVED s1)
                          \<lparr>serverList := (serverList s1)[index := None]\<rparr>))))"

text \<open>\<open>ServerList::iget(ServerId)\<close>\<close>

definition iget :: "ServerList \<Rightarrow> ServerId \<Rightarrow> ServerDetails option" where
  "iget s sid =
     (let index = unat (indexNumber sid)
      in if index < List.length (serverList s) then
           (case serverList s ! index of
              Some details \<Rightarrow> if serverId details = sid then Some details else None
            | None \<Rightarrow> None)
         else None)"

text \<open>
  The first loop of \<open>ServerList::applyFullList\<close>: the ids of the servers of the list
  that are not down; a repeated id fails the assertion.
\<close>

fun collectListIds :: "ProtoBuf_Entry list \<Rightarrow> ServerId set \<Rightarrow> error + ServerId set" where
  "collectListIds [] listIds = Inr listIds"
| "collectListIds (e # es) listIds =
     (if entry_status e = DOWN then collectListIds es listIds
      else if server_id e \<in> listIds then Inl AssertionFailed
      else collectListIds es (insert (server_id e) listIds))"

text \<open>
  The second loop: the slots \<open>i, i + 1, ...\<close> of the vector, \<open>k\<close> of them, in order;
  a server that is not in the list is removed.
\<close>

fun removeDowns :: "nat \<Rightarrow> ServerId set \<Rightarrow> nat \<Rightarrow> nat \<Rightarrow> ServerList \<Rightarrow> error + ServerList" where
  "removeDowns fuel listIds i 0 s = Inr s"
| "removeDowns fuel listIds i (Suc k) s =
     (if i \<ge> List.length (serverList s) then Inl InvalidAccess
      else case serverList s ! i of
        None \<Rightarrow> removeDowns fuel listIds (Suc i) k s
      | Some sv \<Rightarrow>
          if \<not> ServerId_isValid (serverId sv) then Inl AssertionFailed
          else if serverId sv \<notin> listIds then
            (case remove fuel s (serverId sv) of
               Inl e \<Rightarrow> Inl e
             | Inr (r, s1) \<Rightarrow> removeDowns fuel listIds (Suc i) k s1)
          else removeDowns fuel listIds (Suc i) k s)"

text \<open>The third and the fourth loop.\<close>

fun applyCrashes :: "nat \<Rightarrow> ProtoBuf_Entry list \<Rightarrow> ServerList \<Rightarrow> error + ServerList" where
  "applyCrashes fuel [] s = Inr s"
| "applyCrashes fuel (e # es) s =
     (if entry_status e \<noteq> CRASHED then applyCrashes fuel es s
      else case crashed fuel s (server_id e) (service_locator e) (entry_services e)
                  (expected_read_mbytes_per_sec e) of
             Inl err \<Rightarrow> Inl err
           | Inr (r, s1) \<Rightarrow> applyCrashes fuel es s1)"

fun applyUps :: "nat \<Rightarrow> ProtoBuf_Entry list \<Rightarrow> ServerList \<Rightarrow> error + ServerList" where
  "applyUps fuel [] s = Inr s"
| "applyUps fuel (e # es) s =
     (if entry_status e \<noteq> UP then applyUps fuel es s
      else case add fuel s (server_id e) (service_locator e) (entry_services e)
                  (expected_read_mbytes_per_sec e) of
             Inl err \<Rightarrow> Inl err
           | Inr (r, s1) \<Rightarrow> applyUps fuel es s1)"

text \<open>\<open>foreach (tracker, trackers) tracker->fireCallback()\<close>\<close>

definition fireCallbacks :: "ServerList \<Rightarrow> ServerList" where
  "fireCallbacks s = s\<lparr>trackers := map fireCallback (trackers s)\<rparr>"

text \<open>\<open>ServerList::applyFullList\<close>\<close>

definition applyFullList :: "nat \<Rightarrow> ServerList \<Rightarrow> ProtoBuf_ServerList \<Rightarrow> error + ServerList" where
  "applyFullList fuel s lst =
     (if list_type lst \<noteq> ServerList_Type_FULL_LIST then Inl AssertionFailed
      else case collectListIds (server lst) {} of
        Inl e \<Rightarrow> Inl e
      | Inr listIds \<Rightarrow>
          (case removeDowns fuel listIds 0 (List.length (serverList s)) s of
             Inl e \<Rightarrow> Inl e
           | Inr s1 \<Rightarrow>
               (case applyCrashes fuel (server lst) s1 of
                  Inl e \<Rightarrow> Inl e
                | Inr s2 \<Rightarrow>
                    (case applyUps fuel (server lst) s2 of
                       Inl e \<Rightarrow> Inl e
                     | Inr s3 \<Rightarrow>
                         Inr (fireCallbacks (s3\<lparr>version := version_number lst\<rparr>))))))"

text \<open>The loop of \<open>ServerList::applyUpdate\<close>; \<open>False\<close> is its \<open>return false\<close>.\<close>

fun applyUpdateEntries ::
  "nat \<Rightarrow> ProtoBuf_Entry list \<Rightarrow> ServerList \<Rightarrow> error + (bool \<times> ServerList)" where
  "applyUpdateEntries fuel [] s = Inr (True, s)"
| "applyUpdateEntries fuel (e # es) s =
     (if \<not> ServerId_isValid (server_id e) then Inl AssertionFailed
      else if entry_status e = UP then
        (case add fuel s (server_id e) (service_locator e) (entry_services e)
                (expected_read_mbytes_per_sec e) of
           Inl err \<Rightarrow> Inl err
         | Inr (r, s1) \<Rightarrow> applyUpdateEntries fuel es s1)
      else if entry_status e = CRASHED then
        (if iget s (server_id e) = None then Inr (False, s)
         else (case crashed fuel s (server_id e) (service_locator e) (entry_services e)
                     (expected_read_mbytes_per_sec e) of
                Inl err \<Rightarrow> Inl err
              | Inr (r, s1) \<Rightarrow> applyUpdateEntries fuel es s1))
      else
        (if iget s (server_id e) = None then Inr (False, s)
         else (case remove fuel s (server_id e) of
                Inl err \<Rightarrow> Inl err
              | Inr (r, s1) \<Rightarrow> applyUpdateEntries fuel es s1)))"

text \<open>\<open>ServerList::applyUpdate\<close>\<close>

definition applyUpdate ::
  "nat \<Rightarrow> ServerList \<Rightarrow> ProtoBuf_ServerList \<Rightarrow> error + (bool \<times> ServerList)" where
  "applyUpdate fuel s update =
     (if list_type update \<noteq> ServerList_Type_UPDATE then Inl AssertionFailed
      else if version_number update \<noteq> version s + 1 then Inr (False, s)
      else case applyUpdateEntries fuel (server update) s of
        Inl e \<Rightarrow> Inl e
      | Inr (False, s1) \<Rightarrow> Inr (False, s1)
      | Inr (True, s1) \<Rightarrow>
          Inr (True, fireCallbacks (s1\<lparr>version := version_number update\<rparr>)))"

text \<open>\<open>ServerList::applyServerList\<close>\<close>

definition applyServerList :: "nat \<Rightarrow> ServerList \<Rightarrow> ProtoBuf_ServerList \<Rightarrow> error + ServerList" where
  "applyServerList fuel s lst =
     (if version_number lst \<le> version s then Inr s
      else case list_type lst of
        ServerList_Type_UPDATE \<Rightarrow>
          (case applyUpdate fuel s lst of
             Inl e \<Rightarrow> Inl e
           | Inr (False, s1) \<Rightarrow> Inl Died
           | Inr (True, s1) \<Rightarrow> Inr s1)
      | ServerList_Type_FULL_LIST \<Rightarrow> applyFullList fuel s lst)"

section \<open>Properties of the header\<close>

text \<open>
  C9: \<open>RpcId::operator<\<close> is the strict lexicographic order on the pair
  (clientId, sequence): it is irreflexive, transitive and trichotomous, and it agrees
  with \<open>RpcId::operator==\<close>: two ids are equal exactly when neither is below the
  other.
\<close>

theorem RpcId_less_strict_lexicographic:
  "(RpcId_less a b \<longleftrightarrow>
      (RpcId.clientId a, RpcId.sequence a) < (RpcId.clientId b, RpcId.sequence b))
   \<and> \<not> RpcId_less a a
   \<and> (RpcId_less a b \<longrightarrow> RpcId_less b c \<longrightarrow> RpcId_less a c)
   \<and> (RpcId_less a b \<or> RpcId_eq a b \<or> RpcId_less b a)
   \<and> (RpcId_eq a b \<longleftrightarrow> \<not> RpcId_less a b \<and> \<not> RpcId_less b a)
   \<and> (RpcId_eq a b \<longleftrightarrow> a = (b :: RpcId))"
  by (auto simp: RpcId_less_def RpcId_eq_def less_prod_def)

theorem RpcId_less_strict_lexicographic_witness:
  "RpcId_less (RpcId_ctor 1 9) (RpcId_ctor 2 0)
   \<and> RpcId_less (RpcId_ctor 2 0) (RpcId_ctor 2 5)
   \<and> RpcId_less (RpcId_ctor 1 9) (RpcId_ctor 2 5)
   \<and> \<not> RpcId_eq (RpcId_ctor 1 9) (RpcId_ctor 2 0)"
  using RpcId_less_strict_lexicographic
    [of "(RpcId_ctor 1 9)" "(RpcId_ctor 2 0)"
        "(RpcId_ctor 2 5)"]
  by (simp add: RpcId_less_def RpcId_ctor_def)

text \<open>
  C7: an ABORT header built by \<open>AbortHeader\<close> carries the opcode ABORT and the
  flags FROM_CLIENT, for every RpcId; it is never marked FROM_SERVER.
\<close>

theorem AbortHeader_from_client:
  "flags (AbortHeader.common (AbortHeader_ctor r)) = FROM_CLIENT
   \<and> flags (AbortHeader.common (AbortHeader_ctor r)) AND FROM_CLIENT \<noteq> 0
   \<and> flags (AbortHeader.common (AbortHeader_ctor r)) \<noteq> FROM_SERVER
   \<and> opcode (AbortHeader.common (AbortHeader_ctor r)) = 26
   \<and> CommonHeader.rpcId (AbortHeader.common (AbortHeader_ctor r)) = r"
  by (simp add: AbortHeader_ctor_def CommonHeader_ctor_def FROM_CLIENT_def FROM_SERVER_def)

text \<open>
  C8: every OutgoingMessage the constructors create (directly, as the request of a
  ClientRpc, or as the response of a ServerRpc) has its unscheduledBytes set to the
  roundTripBytes of the transport, whatever the buffer and the recipient.
\<close>

theorem OutgoingMessage_unscheduledBytes:
  "OutgoingMessage.unscheduledBytes (OutgoingMessage_ctor cRpc sRpc tr buf rcpt)
     = roundTripBytes tr
   \<and> OutgoingMessage.unscheduledBytes (request (ClientRpc_ctor this sess sequ req resp notif))
     = roundTripBytes (Session.t sess)
   \<and> OutgoingMessage.unscheduledBytes
       (ServerRpc.response (ServerRpc_ctor this' replyPayload tr' sequ' clientAddress r))
     = roundTripBytes tr'"
  by (simp add: OutgoingMessage_ctor_def ClientRpc_ctor_def ServerRpc_ctor_def)

section \<open>Properties of the sender\<close>

lemma messageLength_updates [simp]:
  "messageLength (m\<lparr>transmitLimit := l\<rparr>) = messageLength m"
  "messageLength (m\<lparr>transmitOffset := x\<rparr>) = messageLength m"
  "messageLength (m\<lparr>transmitPriority := p\<rparr>) = messageLength m"
  by (simp_all add: messageLength_def)







lemma senderStep_constant [simp]:
  "messageLength (senderStep tr m ev) = messageLength m"
  "OutgoingMessage.unscheduledBytes (senderStep tr m ev) = OutgoingMessage.unscheduledBytes m"
  by (cases ev;
      simp add: transmitPacket_def handleGrant_def handleResend_def beginTransmission_def
        Let_def messageLength_def)+






section \<open>Properties of the message accumulator\<close>

lemma Buffer_size_unat: "List.length b < 2 ^ 32 \<Longrightarrow> unat (Buffer_size b) = List.length b"
  by (simp add: Buffer_size_def unat_of_nat)

lemma dvd_next_multiple:
  fixes n k M :: nat
  assumes "M dvd n" "M dvd k" "n < k"
  shows "n + M \<le> k"
proof -
  obtain i where i: "n = M * i" using assms(1) by (auto simp: dvd_def)
  obtain j where j: "k = M * j" using assms(2) by (auto simp: dvd_def)
  from assms(3) i j have "i < j" by (metis mult_less_cancel1)
  then have "Suc i \<le> j" by simp
  then have "M * Suc i \<le> M * j" by (rule mult_le_mono2)
  then show ?thesis using i j by simp
qed

lemma append_chunk_loop_invariant:
  assumes inv: "accumulatorLoopInvariant msg M a"
    and chunk: "chunkOf msg M pkt len"
    and at_end: "DataHeader.offset (hdr pkt) = Buffer_size (MessageAccumulator.buffer a)"
    and rest: "\<And>k f. frs k = Some f \<Longrightarrow>
                 fragments a k = Some f \<and> k \<noteq> Buffer_size (MessageAccumulator.buffer a)"
  shows "accumulatorLoopInvariant msg M
           (a\<lparr>MessageAccumulator.buffer :=
                 MessageAccumulator.buffer a @ take (unat len) (payload pkt),
              fragments := frs\<rparr>)"
proof -
  define n where "n = List.length (MessageAccumulator.buffer a)"
  define b' where "b' = MessageAccumulator.buffer a @ take (unat len) (payload pkt)"
  have M: "0 < M" and small: "List.length msg < 2 ^ 32" and n_le: "n \<le> List.length msg"
    and pre: "MessageAccumulator.buffer a = take n msg"
    using inv by (auto simp: accumulatorLoopInvariant_def n_def)
  have n_small: "n < 2 ^ 32" using n_le small by simp
  have size_n: "unat (Buffer_size (MessageAccumulator.buffer a)) = n"
    unfolding n_def using n_small by (intro Buffer_size_unat) (simp add: n_def)
  have off_n: "unat (DataHeader.offset (hdr pkt)) = n" using at_end size_n by simp
  have n_lt: "n < List.length msg" and dvd_n: "M dvd n"
    and data: "payload pkt = take M (drop n msg)" and len: "unat len = List.length (payload pkt)"
    using chunk off_n by (auto simp: chunkOf_def)
  have "take (unat len) (payload pkt) = payload pkt" using len by simp
  then have "b' = take n msg @ take M (drop n msg)"
    using pre data by (simp add: b'_def)
  then have b'_eq: "b' = take (n + M) msg"
    by (simp add: take_add)
  have len_b': "List.length b' = min (n + M) (List.length msg)"
    by (simp add: b'_eq min.commute)
  have b'_le: "List.length b' \<le> List.length msg" by (simp add: len_b')
  have b'_pre: "b' = take (List.length b') msg"
    by (simp add: b'_eq len_b' min_def)
  have b'_bound: "M dvd List.length b' \<or> List.length b' = List.length msg"
    using dvd_n by (auto simp: len_b' min_def)
  have b'_size: "unat (Buffer_size b') = List.length b'"
    using b'_le small by (intro Buffer_size_unat) simp
  have frags: "Buffer_size b' \<le> k \<and> DataHeader.offset (hdr (header f)) = k
                 \<and> chunkOf msg M (header f) (MessageFragment.length' f)"
    if "frs k = Some f" for k f
  proof -
    from rest [OF that] have old: "fragments a k = Some f"
      and ne: "k \<noteq> Buffer_size (MessageAccumulator.buffer a)" by simp_all
    from inv old have ge: "Buffer_size (MessageAccumulator.buffer a) \<le> k"
      and offk: "DataHeader.offset (hdr (header f)) = k"
      and ch: "chunkOf msg M (header f) (MessageFragment.length' f)"
      by (auto simp: accumulatorLoopInvariant_def)
    from ge ne have "Buffer_size (MessageAccumulator.buffer a) < k" by simp
    then have "n < unat k" using size_n by (simp add: word_less_nat_alt)
    moreover have "M dvd unat k" using ch offk by (simp add: chunkOf_def)
    ultimately have "n + M \<le> unat k" using dvd_n by (intro dvd_next_multiple)
    then have "List.length b' \<le> unat k" by (simp add: len_b')
    then have "Buffer_size b' \<le> k" using b'_size by (simp add: word_le_nat_alt)
    then show ?thesis using offk ch by simp
  qed
  show ?thesis
    unfolding accumulatorLoopInvariant_def
    using M small b'_le b'_pre b'_bound frags
    by (simp add: b'_def [symmetric])
qed

lemma appendFragments_invariant:
  "accumulatorLoopInvariant msg M a \<Longrightarrow> accumulatorInvariant msg M (appendFragments a)"
proof (induction a rule: appendFragments.induct)
  case (1 a)
  show ?case
  proof (cases "fragments a (Buffer_size (MessageAccumulator.buffer a))")
    case None
    then show ?thesis using "1.prems"
      by (simp add: appendFragments.simps [of a] accumulatorInvariant_def)
  next
    case (Some f)
    have ch: "chunkOf msg M (header f) (MessageFragment.length' f)"
      and off: "DataHeader.offset (hdr (header f)) = Buffer_size (MessageAccumulator.buffer a)"
      using "1.prems" Some by (auto simp: accumulatorLoopInvariant_def)
    have "accumulatorLoopInvariant msg M
            (a\<lparr>MessageAccumulator.buffer :=
                  MessageAccumulator.buffer a
                  @ take (unat (MessageFragment.length' f)) (payload (header f)),
               fragments := (fragments a)(Buffer_size (MessageAccumulator.buffer a) := None)\<rparr>)"
      by (rule append_chunk_loop_invariant [OF "1.prems" ch off]) (auto split: if_splits)
    then have "accumulatorInvariant msg M
            (appendFragments (a\<lparr>MessageAccumulator.buffer :=
                  MessageAccumulator.buffer a @ fragmentData f,
               fragments := (fragments a)(Buffer_size (MessageAccumulator.buffer a) := None)\<rparr>))"
      using "1.IH" [OF Some] by (simp add: fragmentData_def)
    then show ?thesis using Some by (simp add: appendFragments.simps [of a])
  qed
qed

lemma addPacket_invariant:
  assumes inv: "accumulatorInvariant msg M a" and chunk: "chunkOf msg M pkt len"
  shows "accumulatorInvariant msg M (snd (snd (addPacket a pkt len)))"
proof -
  let ?off = "DataHeader.offset (hdr pkt)"
  let ?sz = "Buffer_size (MessageAccumulator.buffer a)"
  have loop: "accumulatorLoopInvariant msg M a" and none: "fragments a ?sz = None"
    using inv by (auto simp: accumulatorInvariant_def)
  consider (dup) "?off < ?sz" | (app) "?off = ?sz" | (gap) "?sz < ?off"
    by (metis not_less_iff_gr_or_eq)
  then show ?thesis
  proof cases
    case dup
    then show ?thesis using inv by (simp add: addPacket_def)
  next
    case app
    have "accumulatorLoopInvariant msg M
            (a\<lparr>MessageAccumulator.buffer :=
                  MessageAccumulator.buffer a @ take (unat len) (payload pkt),
               fragments := fragments a\<rparr>)"
      by (rule append_chunk_loop_invariant [OF loop chunk app]) (use none in auto)
    then have "accumulatorInvariant msg M
            (appendFragments (a\<lparr>MessageAccumulator.buffer :=
                  MessageAccumulator.buffer a @ take (unat len) (payload pkt)\<rparr>))"
      by (intro appendFragments_invariant) simp
    then show ?thesis using app by (simp add: addPacket_def Let_def)
  next
    case gap
    then have not_dup: "\<not> ?off < ?sz" and not_app: "?off \<noteq> ?sz" by auto
    show ?thesis
    proof (cases "fragments a ?off")
      case (Some f)
      then show ?thesis using not_dup not_app inv by (simp add: addPacket_def Let_def)
    next
      case None
      have "accumulatorInvariant msg M
              (a\<lparr>fragments := (fragments a)(?off \<mapsto>
                    \<lparr>header = pkt, MessageFragment.length' = len\<rparr>)\<rparr>)"
        using loop none gap chunk
        by (auto simp: accumulatorInvariant_def accumulatorLoopInvariant_def)
      then show ?thesis using not_dup not_app None by (simp add: addPacket_def Let_def)
    qed
  qed
qed

lemma appendFragments_no_pending:
  "fragments (appendFragments a)
     (Buffer_size (MessageAccumulator.buffer (appendFragments a))) = None"
proof (induction a rule: appendFragments.induct)
  case (1 a)
  show ?case
  proof (cases "fragments a (Buffer_size (MessageAccumulator.buffer a))")
    case None
    then show ?thesis by (simp add: appendFragments.simps [of a])
  next
    case (Some f)
    then show ?thesis using "1.IH" [OF Some] by (simp add: appendFragments.simps [of a])
  qed
qed

lemma appendFragments_length_mono:
  "List.length (MessageAccumulator.buffer a)
     \<le> List.length (MessageAccumulator.buffer (appendFragments a))"
proof (induction a rule: appendFragments.induct)
  case (1 a)
  show ?case
  proof (cases "fragments a (Buffer_size (MessageAccumulator.buffer a))")
    case None
    then show ?thesis by (simp add: appendFragments.simps [of a])
  next
    case (Some f)
    then show ?thesis using "1.IH" [OF Some] by (simp add: appendFragments.simps [of a])
  qed
qed

lemma addPacket_no_pending:
  assumes "fragments a (Buffer_size (MessageAccumulator.buffer a)) = None"
  shows "fragments (snd (snd (addPacket a pkt len)))
           (Buffer_size (MessageAccumulator.buffer (snd (snd (addPacket a pkt len))))) = None"
  using assms
  by (auto simp: addPacket_def Let_def appendFragments_no_pending split: option.splits)

lemma reachable_no_pending:
  "reachableAccumulator a \<Longrightarrow>
     fragments a (Buffer_size (MessageAccumulator.buffer a)) = None"
proof (induction rule: reachableAccumulator.induct)
  case (created buf tot)
  show ?case by (simp add: MessageAccumulator_ctor_def)
next
  case (added a pkt len)
  then show ?case by (intro addPacket_no_pending)
qed

lemma duplicate_released:
  assumes none: "fragments a (Buffer_size (MessageAccumulator.buffer a)) = None"
    and dup: "DataHeader.offset (hdr pkt) < Buffer_size (MessageAccumulator.buffer a)
              \<or> DataHeader.offset (hdr pkt) \<in> dom (fragments a)"
  shows "addPacket a pkt len = (False, ReleasedToDriver, a)"
proof (cases "DataHeader.offset (hdr pkt) < Buffer_size (MessageAccumulator.buffer a)")
  case True
  then show ?thesis by (simp add: addPacket_def)
next
  case False
  with dup obtain f where f: "fragments a (DataHeader.offset (hdr pkt)) = Some f" by auto
  with none have "DataHeader.offset (hdr pkt) \<noteq> Buffer_size (MessageAccumulator.buffer a)"
    by auto
  with False f show ?thesis by (simp add: addPacket_def)
qed

lemma first_delivery_makes_duplicate:
  assumes inv: "accumulatorInvariant msg M a" and chunk: "chunkOf msg M pkt len"
  shows "DataHeader.offset (hdr pkt)
           < Buffer_size (MessageAccumulator.buffer (snd (snd (addPacket a pkt len))))
         \<or> DataHeader.offset (hdr pkt) \<in> dom (fragments (snd (snd (addPacket a pkt len))))"
proof -
  let ?off = "DataHeader.offset (hdr pkt)"
  let ?sz = "Buffer_size (MessageAccumulator.buffer a)"
  let ?a' = "snd (snd (addPacket a pkt len))"
  have inv': "accumulatorInvariant msg M ?a'" by (rule addPacket_invariant [OF inv chunk])
  consider (dup) "?off < ?sz" | (app) "?off = ?sz" | (gap) "?sz < ?off"
    by (metis not_less_iff_gr_or_eq)
  then show ?thesis
  proof cases
    case dup
    then show ?thesis by (simp add: addPacket_def)
  next
    case gap
    then have "\<not> ?off < ?sz" "?off \<noteq> ?sz" by auto
    then show ?thesis by (auto simp: addPacket_def Let_def split: option.splits)
  next
    case app
    have loop: "accumulatorLoopInvariant msg M a" and none: "fragments a ?sz = None"
      using inv by (auto simp: accumulatorInvariant_def)
    have small: "List.length msg < 2 ^ 32" and M: "0 < M"
      and le: "List.length (MessageAccumulator.buffer a) \<le> List.length msg"
      using loop by (auto simp: accumulatorLoopInvariant_def)
    have sz: "unat ?sz = List.length (MessageAccumulator.buffer a)"
      using le small by (intro Buffer_size_unat) simp
    have lt: "List.length (MessageAccumulator.buffer a) < List.length msg"
      using chunk app sz by (simp add: chunkOf_def)
    have le': "List.length (MessageAccumulator.buffer ?a') \<le> List.length msg"
      and pre': "MessageAccumulator.buffer ?a'
                   = take (List.length (MessageAccumulator.buffer ?a')) msg"
      and bound': "M dvd List.length (MessageAccumulator.buffer ?a')
                   \<or> List.length (MessageAccumulator.buffer ?a') = List.length msg"
      and frs': "\<And>k f. fragments ?a' k = Some f \<Longrightarrow>
                   Buffer_size (MessageAccumulator.buffer ?a') \<le> k"
      using inv' by (auto simp: accumulatorInvariant_def accumulatorLoopInvariant_def)
    have sz': "unat (Buffer_size (MessageAccumulator.buffer ?a'))
                 = List.length (MessageAccumulator.buffer ?a')"
      using le' small by (intro Buffer_size_unat) simp
    have pay: "unat len = List.length (payload pkt)"
      and data: "payload pkt = take M (drop (List.length (MessageAccumulator.buffer a)) msg)"
      using chunk app sz by (auto simp: chunkOf_def)
    have "0 < List.length (payload pkt)" using data lt M by simp
    then have "List.length (MessageAccumulator.buffer a)
                 < List.length (MessageAccumulator.buffer a @ take (unat len) (payload pkt))"
      using pay by simp
    also have "\<dots> \<le> List.length (MessageAccumulator.buffer ?a')"
      using appendFragments_length_mono
        [of "a\<lparr>MessageAccumulator.buffer :=
               MessageAccumulator.buffer a @ take (unat len) (payload pkt)\<rparr>"]
        app
      by (simp add: addPacket_def Let_def)
    finally have grow: "List.length (MessageAccumulator.buffer a)
                  < List.length (MessageAccumulator.buffer ?a')" .
    then show ?thesis using app sz sz' by (simp add: word_less_nat_alt)
  qed
qed

text \<open>
  C5: a packet whose offset is below buffer.size(), or is a key of fragments already,
  leaves the accumulator as it is, is released to the driver, and the call returns
  false; and a packet delivered twice in a row is such a packet the second time, so the
  second delivery changes nothing.
\<close>

theorem addPacket_duplicate_ignored:
  "(reachableAccumulator a
      \<and> (DataHeader.offset (hdr pkt) < Buffer_size (MessageAccumulator.buffer a)
          \<or> DataHeader.offset (hdr pkt) \<in> dom (fragments a)) \<longrightarrow>
      addPacket a pkt len = (False, ReleasedToDriver, a))
   \<and> (accumulatorInvariant msg M a' \<and> chunkOf msg M pkt' len' \<longrightarrow>
        addPacket (snd (snd (addPacket a' pkt' len'))) pkt' len'
          = (False, ReleasedToDriver, snd (snd (addPacket a' pkt' len'))))"
proof (intro conjI impI)
  assume "reachableAccumulator a
      \<and> (DataHeader.offset (hdr pkt) < Buffer_size (MessageAccumulator.buffer a)
          \<or> DataHeader.offset (hdr pkt) \<in> dom (fragments a))"
  then show "addPacket a pkt len = (False, ReleasedToDriver, a)"
    using reachable_no_pending duplicate_released by blast
next
  assume h: "accumulatorInvariant msg M a' \<and> chunkOf msg M pkt' len'"
  let ?a = "snd (snd (addPacket a' pkt' len'))"
  have "accumulatorInvariant msg M ?a" using h by (simp add: addPacket_invariant)
  then have "fragments ?a (Buffer_size (MessageAccumulator.buffer ?a)) = None"
    by (simp add: accumulatorInvariant_def)
  moreover have "DataHeader.offset (hdr pkt') < Buffer_size (MessageAccumulator.buffer ?a)
          \<or> DataHeader.offset (hdr pkt') \<in> dom (fragments ?a)"
    using h first_delivery_makes_duplicate by blast
  ultimately show "addPacket ?a pkt' len' = (False, ReleasedToDriver, ?a)"
    by (rule duplicate_released)
qed

theorem addPacket_duplicate_ignored_witness:
  "reachableAccumulator
     (snd (snd (addPacket (MessageAccumulator_ctor [] 12) (examplePacket 8 [8, 9, 10, 11]) 4)))
   \<and> DataHeader.offset (hdr (examplePacket 8 [8, 9, 10, 11]))
       \<in> dom (fragments (snd (snd (addPacket (MessageAccumulator_ctor [] 12)
                                     (examplePacket 8 [8, 9, 10, 11]) 4))))
   \<and> accumulatorInvariant exampleMessage 4 (MessageAccumulator_ctor [] 12)
   \<and> chunkOf exampleMessage 4 (examplePacket 0 [0, 1, 2, 3]) 4
   \<and> addPacket
        (snd (snd (addPacket (MessageAccumulator_ctor [] 12) (examplePacket 8 [8, 9, 10, 11]) 4)))
        (examplePacket 8 [8, 9, 10, 11]) 4
       = (False, ReleasedToDriver,
          snd (snd (addPacket (MessageAccumulator_ctor [] 12)
                      (examplePacket 8 [8, 9, 10, 11]) 4)))
   \<and> addPacket
        (snd (snd (addPacket (MessageAccumulator_ctor [] 12) (examplePacket 0 [0, 1, 2, 3]) 4)))
        (examplePacket 0 [0, 1, 2, 3]) 4
       = (False, ReleasedToDriver,
          snd (snd (addPacket (MessageAccumulator_ctor [] 12) (examplePacket 0 [0, 1, 2, 3]) 4)))"
proof -
  let ?a = "snd (snd (addPacket (MessageAccumulator_ctor [] 12)
                        (examplePacket 8 [8, 9, 10, 11]) 4))"
  have r: "reachableAccumulator ?a"
    by (intro reachableAccumulator.added reachableAccumulator.created)
  have d: "DataHeader.offset (hdr (examplePacket 8 [8, 9, 10, 11])) \<in> dom (fragments ?a)"
    by (simp add: addPacket_def MessageAccumulator_ctor_def examplePacket_def
        DataHeader_ctor_def Buffer_size_def)
  have i: "accumulatorInvariant exampleMessage 4 (MessageAccumulator_ctor [] 12)"
    by (simp add: accumulatorInvariant_def accumulatorLoopInvariant_def
        MessageAccumulator_ctor_def exampleMessage_def)
  have c: "chunkOf exampleMessage 4 (examplePacket 0 [0, 1, 2, 3]) 4"
    by (simp add: chunkOf_def examplePacket_def exampleMessage_def DataHeader_ctor_def)
  show ?thesis
    using addPacket_duplicate_ignored
      [of ?a "examplePacket 8 [8, 9, 10, 11]" 4 exampleMessage 4
          "MessageAccumulator_ctor [] 12" "examplePacket 0 [0, 1, 2, 3]" 4]
      r d i c
    by simp
qed

section \<open>Properties of the scheduler\<close>

lemma length_insertSorted [simp]: "List.length (insertSorted m xs) = Suc (List.length xs)"
  by (induction xs) simp_all

lemma length_remove1_mem: "x \<in> set xs \<Longrightarrow> Suc (List.length (remove1 x xs)) = List.length xs"
  by (induction xs) auto

lemma find_mem: "find P xs = Some x \<Longrightarrow> x \<in> set xs"
  by (induction xs) (auto split: if_splits)

lemma replaceActiveMessage_bound:
  assumes "activeBound tr" "oldMessage \<in> set (activeMessages tr)"
  shows "activeBound (replaceActiveMessage tr oldMessage newMessage)"
  using assms length_remove1_mem [of oldMessage "activeMessages tr"]
  by (cases newMessage) (auto simp: activeBound_def replaceActiveMessage_def)

lemma replaceActiveMessage_max [simp]:
  "maxGrantedMessages (replaceActiveMessage tr oldMessage newMessage) = maxGrantedMessages tr"
  by (cases newMessage) (simp_all add: replaceActiveMessage_def)

lemma tryToSchedule_bound:
  assumes inv: "activeBound tr" and res: "tryToSchedule tr m = Inr tr'"
  shows "activeBound tr'"
proof (cases "state m = NEW")
  case False
  then show ?thesis using inv res by (simp add: tryToSchedule_def)
next
  case new: True
  show ?thesis
  proof (cases "find (\<lambda>x. senderHash x = senderHash m) (activeMessages tr)")
    case (Some sibling)
    then have mem: "sibling \<in> set (activeMessages tr)" by (rule find_mem)
    have "activeBound (replaceActiveMessage tr sibling (Some m))"
      by (rule replaceActiveMessage_bound [OF inv mem])
    then show ?thesis using new Some inv res
      by (auto simp: tryToSchedule_def activeBound_def Let_def split: if_splits)
  next
    case None
    have "activeMessages tr \<noteq> [] \<Longrightarrow>
            Suc (List.length (butlast (activeMessages tr))) = List.length (activeMessages tr)"
      by simp
    then show ?thesis using new None inv res
      by (auto simp: tryToSchedule_def activeBound_def simp del: length_butlast
          split: if_splits)
  qed
qed

lemma tryToSchedule_returns:
  assumes "0 < maxGrantedMessages tr"
  shows "\<exists>tr'. tryToSchedule tr m = Inr tr'"
proof -
  have "0 < unat (maxGrantedMessages tr)" using assms by (simp add: word_less_nat_alt)
  then show ?thesis
    by (auto simp: tryToSchedule_def Let_def split: option.splits)
qed

lemma leaveActive_bound:
  assumes "activeBound tr" "m \<in> set (activeMessages tr)"
  shows "activeBound (leaveActive tr m)"
  unfolding leaveActive_def using assms by (rule replaceActiveMessage_bound)

text \<open>
  C3: if at most maxGrantedMessages messages are active, then so it is after
  tryToSchedule, which returns whenever maxGrantedMessages is positive, and after
  replaceActiveMessage for a message that is active, with the best inactive message
  in particular; a transport with no active message is within the bound.
\<close>

theorem activeMessages_bounded:
  "activeBound (tr0\<lparr>activeMessages := []\<rparr>)
   \<and> (activeBound tr \<longrightarrow>
        (\<forall>tr'. tryToSchedule tr m = Inr tr' \<longrightarrow> activeBound tr')
        \<and> (0 < maxGrantedMessages tr \<longrightarrow> (\<exists>tr'. tryToSchedule tr m = Inr tr'))
        \<and> (oldMessage \<in> set (activeMessages tr) \<longrightarrow>
             activeBound (replaceActiveMessage tr oldMessage newMessage)
             \<and> activeBound (leaveActive tr oldMessage)))"
  using tryToSchedule_bound tryToSchedule_returns replaceActiveMessage_bound leaveActive_bound
  by (auto simp: activeBound_def)

theorem activeMessages_bounded_witness:
  "activeBound busyTransport \<and> 0 < maxGrantedMessages busyTransport
   \<and> bigMessage \<in> set (activeMessages busyTransport)
   \<and> tryToSchedule busyTransport smallMessage
       = Inr (busyTransport
               \<lparr>activeMessages := [smallMessage\<lparr>state := ACTIVE\<rparr>],
                inactiveMessages := [bigMessage\<lparr>state := INACTIVE\<rparr>]\<rparr>)
   \<and> activeBound (busyTransport
               \<lparr>activeMessages := [smallMessage\<lparr>state := ACTIVE\<rparr>],
                inactiveMessages := [bigMessage\<lparr>state := INACTIVE\<rparr>]\<rparr>)
   \<and> activeBound (replaceActiveMessage busyTransport bigMessage (Some smallMessage))
   \<and> activeBound (leaveActive busyTransport bigMessage)"
proof -
  have b: "activeBound busyTransport"
    by (simp add: activeBound_def busyTransport_def)
  have d: "0 < maxGrantedMessages busyTransport" by (simp add: busyTransport_def)
  have o: "bigMessage \<in> set (activeMessages busyTransport)" by (simp add: busyTransport_def)
  have r: "tryToSchedule busyTransport smallMessage
       = Inr (busyTransport
               \<lparr>activeMessages := [smallMessage\<lparr>state := ACTIVE\<rparr>],
                inactiveMessages := [bigMessage\<lparr>state := INACTIVE\<rparr>]\<rparr>)"
    by (simp add: tryToSchedule_def busyTransport_def bigMessage_def smallMessage_def
        ScheduledMessage_ctor_def compareTo_def bytesRemaining_def Buffer_size_def)
  show ?thesis
    using activeMessages_bounded
      [of busyTransport busyTransport smallMessage bigMessage "Some smallMessage"]
      b d o r
    by simp
qed

section \<open>Properties of ServerList\<close>

text \<open>
  C10: \<open>applyServerList\<close>, given a list whose version_number is at most the version
  of the ServerList, returns and leaves the entries, the version and every tracker as
  they were: an old or repeated update is ignored.
\<close>

theorem applyServerList_stale_ignored:
  assumes "version_number lst \<le> version s"
  shows "\<exists>s'. applyServerList fuel s lst = Inr s'
           \<and> serverList s' = serverList s \<and> version s' = version s
           \<and> trackers s' = trackers s \<and> s' = s"
  using assms by (simp add: applyServerList_def)

theorem applyServerList_stale_ignored_witness:
  "version_number
      \<lparr>version_number = 7, list_type = ServerList_Type_FULL_LIST,
       server = [\<lparr>server_id = \<lparr>indexNumber = 1, generationNumber = 0\<rparr>,
                  entry_status = UP, service_locator = ''tcp:host=b'', entry_services = 3,
                  expected_read_mbytes_per_sec = 100\<rparr>]\<rparr>
     \<le> version \<lparr>serverList = [None], version = 7,
                  trackers = [\<lparr>changes = [], callbacksFired = 0\<rparr>]\<rparr>
   \<and> applyServerList 3
       \<lparr>serverList = [None], version = 7,
        trackers = [\<lparr>changes = [], callbacksFired = 0\<rparr>]\<rparr>
       \<lparr>version_number = 7, list_type = ServerList_Type_FULL_LIST,
        server = [\<lparr>server_id = \<lparr>indexNumber = 1, generationNumber = 0\<rparr>,
                   entry_status = UP, service_locator = ''tcp:host=b'', entry_services = 3,
                   expected_read_mbytes_per_sec = 100\<rparr>]\<rparr>
     = Inr \<lparr>serverList = [None], version = 7,
            trackers = [\<lparr>changes = [], callbacksFired = 0\<rparr>]\<rparr>"
  using applyServerList_stale_ignored
    [of "\<lparr>version_number = 7, list_type = ServerList_Type_FULL_LIST,
         server = [\<lparr>server_id = \<lparr>indexNumber = 1, generationNumber = 0\<rparr>,
                    entry_status = UP, service_locator = ''tcp:host=b'', entry_services = 3,
                    expected_read_mbytes_per_sec = 100\<rparr>]\<rparr>"
        "\<lparr>serverList = [None], version = 7,
         trackers = [\<lparr>changes = [], callbacksFired = 0\<rparr>]\<rparr>" 3]
  by simp

end
